theory Spec2Isabelle
  imports Complex_Main "HOL-Library.Word"
begin

section \<open>JavaScript strings\<close>

text \<open>
  A JavaScript string is a sequence of 16-bit code units. \<open>lit\<close> embeds an ASCII
  literal of the script.
\<close>

type_synonym jsstring = "16 word list"

definition lit :: "string \<Rightarrow> jsstring" where
  "lit s = map of_char s"

text \<open>
  The white space of \<^verbatim>\<open>String.prototype.trim\<close> and of the regular expression class
  \<^verbatim>\<open>\s\<close>: the ECMAScript WhiteSpace and LineTerminator code points.
\<close>

definition is_space :: "16 word \<Rightarrow> bool" where
  "is_space c \<longleftrightarrow>
     c \<in> set [0x0009, 0x000A, 0x000B, 0x000C, 0x000D, 0x0020, 0x00A0, 0x1680,
              0x2000, 0x2001, 0x2002, 0x2003, 0x2004, 0x2005, 0x2006, 0x2007,
              0x2008, 0x2009, 0x200A, 0x2028, 0x2029, 0x202F, 0x205F, 0x3000, 0xFEFF]"

definition trim :: "jsstring \<Rightarrow> jsstring" where
  "trim s = rev (dropWhile is_space (rev (dropWhile is_space s)))"

text \<open>\<^verbatim>\<open>Array.prototype.join\<close> on an array of strings.\<close>

fun join :: "jsstring \<Rightarrow> jsstring list \<Rightarrow> jsstring" where
  "join sep [] = []"
| "join sep [x] = x"
| "join sep (x # y # ys) = x @ sep @ join sep (y # ys)"

subsection \<open>The email pattern\<close>

text \<open>
  \<^verbatim>\<open>/^[^\s@]+@[^\s@]+\.[^\s@]+$/\<close> is a sequence of atoms between the two anchors:
  the class \<^verbatim>\<open>[^\s@]\<close> repeated one or more times, and single literal code units.
  \<open>rx_match\<close> tries every length of each repetition, as the backtracking matcher of
  \<^verbatim>\<open>RegExp.prototype.test\<close> does, and accepts at the end of the input only.
\<close>

datatype atom = NotSpaceAtPlus | Ch "16 word"

definition not_space_at :: "16 word \<Rightarrow> bool" where
  "not_space_at c \<longleftrightarrow> \<not> is_space c \<and> c \<noteq> 0x40"

fun rx_match :: "atom list \<Rightarrow> jsstring \<Rightarrow> bool" where
  "rx_match [] s = (s = [])"
| "rx_match (Ch c # r) [] = False"
| "rx_match (Ch c # r) (x # xs) = (x = c \<and> rx_match r xs)"
| "rx_match (NotSpaceAtPlus # r) [] = False"
| "rx_match (NotSpaceAtPlus # r) (x # xs) =
     (not_space_at x \<and> (rx_match r xs \<or> rx_match (NotSpaceAtPlus # r) xs))"

definition emailRegex :: "atom list" where
  "emailRegex = [NotSpaceAtPlus, Ch 0x40, NotSpaceAtPlus, Ch 0x2E, NotSpaceAtPlus]"

definition emailRegex_test :: "jsstring \<Rightarrow> bool" where
  "emailRegex_test s = rx_match emailRegex s"

section \<open>The document\<close>

text \<open>
  The elements of the page form a store, listed in document order; a reference is an
  index into it, and index 0 is \<^verbatim>\<open>document.documentElement\<close>. Each element carries
  the properties that the script reads or writes. \<open>localName\<close> is the tag in lower
  case, \<open>fieldValue\<close> the \<^verbatim>\<open>value\<close> property of a form control (\<open>None\<close> on an element
  that has no string value), \<open>defaultValue\<close> the value that \<^verbatim>\<open>form.reset()\<close> restores,
  \<open>offsetTop\<close> and \<open>offsetHeight\<close> the layout of the element in whole pixels.
\<close>

type_synonym ref = nat

record element =
  localName :: jsstring
  parentRef :: "ref option"
  attrs :: "(jsstring \<times> jsstring) list"
  classList :: "jsstring list"
  textContent :: jsstring
  fieldValue :: "jsstring option"
  defaultValue :: jsstring
  offsetTop :: int
  offsetHeight :: int

datatype js_error = TypeError | SyntaxError

definition getAttribute :: "element \<Rightarrow> jsstring \<Rightarrow> jsstring option" where
  "getAttribute e a = map_of (attrs e) a"

fun set_attr :: "jsstring \<Rightarrow> jsstring \<Rightarrow> (jsstring \<times> jsstring) list \<Rightarrow> (jsstring \<times> jsstring) list" where
  "set_attr a v [] = [(a, v)]"
| "set_attr a v ((k, w) # kvs) = (if k = a then (k, v) # kvs else (k, w) # set_attr a v kvs)"

definition setAttribute :: "jsstring \<Rightarrow> jsstring \<Rightarrow> element \<Rightarrow> element" where
  "setAttribute a v e = e\<lparr>attrs := set_attr a v (attrs e)\<rparr>"

text \<open>\<^verbatim>\<open>classList\<close>: add, remove, toggle and contains on the token list.\<close>

definition class_add :: "jsstring \<Rightarrow> element \<Rightarrow> element" where
  "class_add c e = (if c \<in> set (classList e) then e else e\<lparr>classList := classList e @ [c]\<rparr>)"

definition class_remove :: "jsstring \<Rightarrow> element \<Rightarrow> element" where
  "class_remove c e = e\<lparr>classList := removeAll c (classList e)\<rparr>"

definition class_toggle :: "jsstring \<Rightarrow> element \<Rightarrow> element" where
  "class_toggle c e = (if c \<in> set (classList e) then class_remove c e else class_add c e)"

definition class_contains :: "jsstring \<Rightarrow> element \<Rightarrow> bool" where
  "class_contains c e \<longleftrightarrow> c \<in> set (classList e)"

text \<open>
  Writing through a reference changes that element of the store and no other. The
  references that \<^verbatim>\<open>querySelector\<close> returns always point into the store.
\<close>

definition upd :: "ref \<Rightarrow> (element \<Rightarrow> element) \<Rightarrow> element list \<Rightarrow> element list" where
  "upd i f d = (if i < length d then d[i := f (d ! i)] else d)"

text \<open>
  The chain of ancestors of an element, nearest first. In document order a parent
  precedes its children, which bounds the walk.
\<close>

function ancestors :: "element list \<Rightarrow> ref \<Rightarrow> ref list" where
  "ancestors d i =
     (if i < length d then
        (case parentRef (d ! i) of
           None \<Rightarrow> []
         | Some p \<Rightarrow> if p < i then p # ancestors d p else [])
      else [])"
  by pat_completeness auto
termination
  by (relation "measure (\<lambda>(d, i). i)") auto

declare ancestors.simps [simp del]

text \<open>An element is in the document (\<^verbatim>\<open>isConnected\<close>) when its chain of ancestors ends at the root.\<close>

definition isConnected :: "element list \<Rightarrow> ref \<Rightarrow> bool" where
  "isConnected d i \<longleftrightarrow> i < length d \<and> last (i # ancestors d i) = 0"

text \<open>
  Assigning \<^verbatim>\<open>textContent\<close> replaces the children of the element by one text node:
  its element children leave the tree (with their own subtrees below them).
\<close>

definition set_textContent :: "ref \<Rightarrow> jsstring \<Rightarrow> element list \<Rightarrow> element list" where
  "set_textContent i t d =
     map (\<lambda>j. if j = i then (d ! j)\<lparr>textContent := t\<rparr>
              else if parentRef (d ! j) = Some i then (d ! j)\<lparr>parentRef := None\<rparr>
              else d ! j) [0..<length d]"

subsection \<open>Forms\<close>

text \<open>
  The form owner of a form-associated element, as the HTML standard sets it. A listed
  element in the document with a \<^verbatim>\<open>form\<close> attribute belongs to the first element of the
  document that has this id, provided that element is a form, and to no form otherwise;
  every other element belongs to its nearest ancestor form.
\<close>

definition listed :: "element \<Rightarrow> bool" where
  "listed e \<longleftrightarrow>
     localName e \<in> set (map lit [''button'', ''fieldset'', ''input'', ''object'', ''output'',
                                 ''select'', ''textarea''])"

definition nearest_form :: "element list \<Rightarrow> ref \<Rightarrow> ref option" where
  "nearest_form d j =
     (case filter (\<lambda>a. localName (d ! a) = lit ''form'') (ancestors d j) of
        [] \<Rightarrow> None
      | a # _ \<Rightarrow> Some a)"

definition first_with_id :: "element list \<Rightarrow> jsstring \<Rightarrow> ref option" where
  "first_with_id d v =
     (case filter (\<lambda>k. isConnected d k \<and> getAttribute (d ! k) (lit ''id'') = Some v)
             [0..<length d] of
        [] \<Rightarrow> None
      | k # _ \<Rightarrow> Some k)"

definition form_owner :: "element list \<Rightarrow> ref \<Rightarrow> ref option" where
  "form_owner d j =
     (case getAttribute (d ! j) (lit ''form'') of
        None \<Rightarrow> nearest_form d j
      | Some v \<Rightarrow>
          if listed (d ! j) \<and> isConnected d j then
            (case first_with_id d v of
               None \<Rightarrow> None
             | Some k \<Rightarrow> if v \<noteq> [] \<and> localName (d ! k) = lit ''form'' then Some k else None)
          else nearest_form d j)"

text \<open>
  A form has a property for every name and every id of its listed elements (image
  buttons apart) and of its images. Such a property hides the method of the same name:
  with a control called \<^verbatim>\<open>reset\<close>, \<^verbatim>\<open>form.reset\<close> is that control.
\<close>

definition ascii_lower :: "16 word \<Rightarrow> 16 word" where
  "ascii_lower c = (if 0x0041 \<le> c \<and> c \<le> 0x005A then c + 0x0020 else c)"

definition image_input :: "element \<Rightarrow> bool" where
  "image_input e \<longleftrightarrow>
     localName e = lit ''input'' \<and>
     (case getAttribute e (lit ''type'') of
        None \<Rightarrow> False
      | Some t \<Rightarrow> map ascii_lower t = lit ''image'')"

definition named :: "jsstring \<Rightarrow> element \<Rightarrow> bool" where
  "named n e \<longleftrightarrow>
     getAttribute e (lit ''id'') = Some n \<or> getAttribute e (lit ''name'') = Some n"

definition form_property :: "element list \<Rightarrow> ref \<Rightarrow> jsstring \<Rightarrow> bool" where
  "form_property d f n \<longleftrightarrow>
     list_ex (\<lambda>j. form_owner d j = Some f \<and> named n (d ! j) \<and>
                  (if listed (d ! j) then \<not> image_input (d ! j)
                   else localName (d ! j) = lit ''img''))
       [0..<length d]"

text \<open>
  \<^verbatim>\<open>form.reset()\<close> gives every resettable element whose form owner is the form the
  value that a reset restores. For an output element that value is the text it holds, as
  long as no script has assigned its value (this script never does), so its text stays
  as it is.
\<close>

definition resettable :: "element \<Rightarrow> bool" where
  "resettable e \<longleftrightarrow>
     localName e \<in> set (map lit [''input'', ''output'', ''select'', ''textarea''])"

definition form_reset :: "ref \<Rightarrow> element list \<Rightarrow> element list" where
  "form_reset f d =
     map (\<lambda>j. if form_owner d j = Some f \<and> resettable (d ! j)
              then (d ! j)\<lparr>fieldValue := Some (defaultValue (d ! j))\<rparr>
              else d ! j) [0..<length d]"

subsection \<open>Selectors\<close>

text \<open>
  The selectors of the script in parsed form: a selector is a chain of compound
  selectors joined by the descendant combinator, outermost first; a compound selector
  is a list of simple selectors that must all hold.
\<close>

datatype simple = Tag jsstring | Hash jsstring | Class jsstring | HasAttr jsstring | AttrEq jsstring jsstring

type_synonym compound = "simple list"
type_synonym selector = "compound list"

fun matches_simple :: "element \<Rightarrow> simple \<Rightarrow> bool" where
  "matches_simple e (Tag t) = (localName e = t)"
| "matches_simple e (Hash v) = (getAttribute e (lit ''id'') = Some v)"
| "matches_simple e (Class c) = class_contains c e"
| "matches_simple e (HasAttr a) = (getAttribute e a \<noteq> None)"
| "matches_simple e (AttrEq a v) = (getAttribute e a = Some v)"

definition matches_compound :: "element \<Rightarrow> compound \<Rightarrow> bool" where
  "matches_compound e c = list_all (matches_simple e) c"

text \<open>
  The remaining compounds (innermost first) against the ancestors (nearest first):
  each compound takes the nearest ancestor that satisfies it.
\<close>

fun matches_up :: "element list \<Rightarrow> compound list \<Rightarrow> ref list \<Rightarrow> bool" where
  "matches_up d [] as = True"
| "matches_up d (c # cs) [] = False"
| "matches_up d (c # cs) (a # as) =
     (if matches_compound (d ! a) c then matches_up d cs as else matches_up d (c # cs) as)"

definition matches :: "element list \<Rightarrow> selector \<Rightarrow> ref \<Rightarrow> bool" where
  "matches d sel i =
     (case rev sel of
        [] \<Rightarrow> False
      | c # cs \<Rightarrow> matches_compound (d ! i) c \<and> matches_up d cs (ancestors d i))"

text \<open>\<^verbatim>\<open>document.querySelectorAll\<close> and \<^verbatim>\<open>document.querySelector\<close>, in document order.\<close>

definition qsa :: "element list \<Rightarrow> selector \<Rightarrow> ref list" where
  "qsa d sel = filter (\<lambda>i. isConnected d i \<and> matches d sel i) [0..<length d]"

definition qs :: "element list \<Rightarrow> selector \<Rightarrow> ref option" where
  "qs d sel = (case qsa d sel of [] \<Rightarrow> None | i # _ \<Rightarrow> Some i)"

section \<open>The script\<close>

text \<open>
  \<^verbatim>\<open>script.js\<close> binds a few constants to elements of the page and registers listeners.
  Modelled below are the listeners of the nav toggle (lines 23--28), of the nav links
  that close the menu (31--35), the scroll highlighter (43--57), the submit listener of
  the contact form (82--127), the listener of the modal close button (160--165), the
  scroll listener of the back-to-top button (183--186), \<^verbatim>\<open>applyTheme\<close> with the
  initialisation of the theme (201--213) and the listener of the theme toggle (216--223).
  Each listener returns the new state, or the exception that it throws. The smooth-scroll
  listener of the nav links, the listeners that open the modal and close it by a click
  outside or by Escape, the click listener of the back-to-top button and the lazy-loading
  pass are left out.
\<close>

subsection \<open>The page state and the constants of the script\<close>

text \<open>
  The state that the listeners of \<^verbatim>\<open>script.js\<close> read and write: the element store,
  \<^verbatim>\<open>localStorage\<close>, \<^verbatim>\<open>window.scrollY\<close>, the texts passed to \<^verbatim>\<open>alert\<close> and
  \<^verbatim>\<open>console.warn\<close> so far, and \<^verbatim>\<open>document.body.style.overflow\<close>.
\<close>

record state =
  doc :: "element list"
  localStorage :: "jsstring \<rightharpoonup> jsstring"
  scrollY :: real
  alerts :: "jsstring list"
  warnings :: "jsstring list"
  bodyOverflow :: jsstring

text \<open>
  The top-level \<^verbatim>\<open>const\<close> bindings that the listeners below use; a \<^verbatim>\<open>null\<close> result
  of \<^verbatim>\<open>querySelector\<close> is \<open>None\<close>. (\<open>root_el\<close> is the script's \<^verbatim>\<open>root\<close>.)
\<close>

record env =
  navToggle :: "ref option"
  navUL :: "ref option"
  sections :: "ref list"
  navLinks :: "ref list"
  contactForm :: "ref option"
  modal :: "ref option"
  modalClose :: "ref option"
  backTop :: "ref option"
  themeToggle :: "ref option"
  root_el :: "ref option"

definition sel_id :: "string \<Rightarrow> selector" where
  "sel_id v = [[Hash (lit v)]]"

definition sel_navUL :: selector where
  "sel_navUL = [[Tag (lit ''nav'')], [Tag (lit ''ul'')]]"

definition sel_navLinks :: selector where
  "sel_navLinks = [[Tag (lit ''nav'')], [Tag (lit ''ul'')], [Tag (lit ''li'')], [Tag (lit ''a'')]]"

definition sel_sections :: selector where
  "sel_sections = [[Tag (lit ''section''), HasAttr (lit ''id'')]]"

definition sel_modalClose :: selector where
  "sel_modalClose = [[Hash (lit ''project-modal'')], [Class (lit ''modal-close'')]]"

definition script_consts :: "element list \<Rightarrow> env" where
  "script_consts d =
     \<lparr>navToggle = qs d (sel_id ''nav-toggle''),
      navUL = qs d sel_navUL,
      sections = qsa d sel_sections,
      navLinks = qsa d sel_navLinks,
      contactForm = qs d (sel_id ''contact-form''),
      modal = qs d (sel_id ''project-modal''),
      modalClose = qs d sel_modalClose,
      backTop = qs d (sel_id ''back-to-top''),
      themeToggle = qs d (sel_id ''theme-toggle''),
      root_el = (if d = [] then None else Some 0)\<rparr>"

definition js_bool :: "bool \<Rightarrow> jsstring" where
  "js_bool b = (if b then lit ''true'' else lit ''false'')"

subsection \<open>Mobile nav toggle\<close>

text \<open>
  The click listener of \<^verbatim>\<open>#nav-toggle\<close>, registered when \<open>navToggle\<close> is not null.
  Reading \<^verbatim>\<open>classList\<close> of a null \<open>navUL\<close> throws a TypeError.
\<close>

definition navToggle_click :: "env \<Rightarrow> state \<Rightarrow> js_error + state" where
  "navToggle_click env s =
     (case navUL env of
        None \<Rightarrow> Inl TypeError
      | Some u \<Rightarrow>
          let d1 = upd u (class_toggle (lit ''open'')) (doc s) in
          (case navToggle env of
             None \<Rightarrow> Inl TypeError
           | Some t \<Rightarrow>
               Inr (s\<lparr>doc := upd t (setAttribute (lit ''aria-expanded'')
                                      (js_bool (class_contains (lit ''open'') (d1 ! u)))) d1\<rparr>)))"

text \<open>The click listener that closes the menu, registered on every element of \<^verbatim>\<open>nav ul li a\<close>.\<close>

definition navLink_click :: "env \<Rightarrow> state \<Rightarrow> js_error + state" where
  "navLink_click env s =
     (case navUL env of
        None \<Rightarrow> Inl TypeError
      | Some u \<Rightarrow>
          Inr (if class_contains (lit ''open'') (doc s ! u)
               then s\<lparr>doc := upd u (class_remove (lit ''open'')) (doc s)\<rparr>
               else s))"

subsection \<open>Active link highlight on scroll\<close>

text \<open>
  The selector \<^verbatim>\<open>nav ul li a[href="#${id}"]\<close> is built by pasting the id of the section
  into a quoted string, so the browser reads the id as the source text of a CSS string.
  The text is read as code points: a pair of surrogates is one code point.
\<close>

definition high_surrogate :: "16 word \<Rightarrow> bool" where
  "high_surrogate c \<longleftrightarrow> 0xD800 \<le> c \<and> c \<le> 0xDBFF"

definition low_surrogate :: "16 word \<Rightarrow> bool" where
  "low_surrogate c \<longleftrightarrow> 0xDC00 \<le> c \<and> c \<le> 0xDFFF"

fun utf16_decode :: "jsstring \<Rightarrow> nat list" where
  "utf16_decode [] = []"
| "utf16_decode [c] = [unat c]"
| "utf16_decode (h # l # r) =
     (if high_surrogate h \<and> low_surrogate l
      then (0x10000 + (unat h - 0xD800) * 0x400 + (unat l - 0xDC00)) # utf16_decode r
      else unat h # utf16_decode (l # r))"

fun utf16_encode :: "nat list \<Rightarrow> jsstring" where
  "utf16_encode [] = []"
| "utf16_encode (c # r) =
     (if c < 0x10000 then of_nat c # utf16_encode r
      else of_nat (0xD800 + (c - 0x10000) div 0x400) #
           of_nat (0xDC00 + (c - 0x10000) mod 0x400) # utf16_encode r)"

text \<open>
  Reading the string after its opening quote. A backslash escapes the next code point,
  joins two lines, or introduces up to six hexadecimal digits (and one white space after
  them) that name a code point. The string ends at the next plain double quote; a line
  break inside it, or the end of the text, ends it badly. The result is how the string
  ended, its value, and the text after it. Reading stops at an escape that names no
  code point (zero, a surrogate, or a number above 10FFFF).
\<close>

datatype string_end = Closed | LineBreak | EndOfText | OddEscape

datatype string_mode = Plain | Escape | Hex nat nat

definition hex_digit :: "nat \<Rightarrow> bool" where
  "hex_digit c \<longleftrightarrow> (0x30 \<le> c \<and> c \<le> 0x39) \<or> (0x41 \<le> c \<and> c \<le> 0x46) \<or> (0x61 \<le> c \<and> c \<le> 0x66)"

definition hex_value :: "nat \<Rightarrow> nat" where
  "hex_value c = (if c \<le> 0x39 then c - 0x30 else if c \<le> 0x46 then c - 0x41 + 10 else c - 0x61 + 10)"

definition code_point :: "nat \<Rightarrow> bool" where
  "code_point v \<longleftrightarrow> v \<noteq> 0 \<and> \<not> (0xD800 \<le> v \<and> v \<le> 0xDFFF) \<and> v \<le> 0x10FFFF"

definition css_white :: "nat \<Rightarrow> bool" where
  "css_white c \<longleftrightarrow> c = 0x0A \<or> c = 0x09 \<or> c = 0x20"

fun css_string :: "string_mode \<Rightarrow> nat list \<Rightarrow> nat list \<Rightarrow> string_end \<times> nat list \<times> nat list" where
  "css_string Plain acc [] = (EndOfText, acc, [])"
| "css_string Plain acc (c # r) =
     (if c = 0x22 then (Closed, acc, r)
      else if c = 0x0A then (LineBreak, acc, c # r)
      else if c = 0x5C then css_string Escape acc r
      else css_string Plain (acc @ [c]) r)"
| "css_string Escape acc [] = (EndOfText, acc, [])"
| "css_string Escape acc (c # r) =
     (if c = 0x0A then css_string Plain acc r
      else if hex_digit c then css_string (Hex 1 (hex_value c)) acc r
      else css_string Plain (acc @ [c]) r)"
| "css_string (Hex n v) acc [] = (if code_point v then EndOfText else OddEscape, acc, [])"
| "css_string (Hex n v) acc (c # r) =
     (if hex_digit c \<and> n < 6 then css_string (Hex (Suc n) (v * 16 + hex_value c)) acc r
      else if \<not> code_point v then (OddEscape, acc, c # r)
      else if css_white c then css_string Plain (acc @ [v]) r
      else if c = 0x22 then (Closed, acc @ [v], r)
      else if c = 0x5C then css_string Escape (acc @ [v]) r
      else css_string Plain (acc @ [v, c]) r)"

text \<open>
  The text that \<^verbatim>\<open>querySelector\<close> receives for a section id, and what it answers.
  \<^item> When the string ends at the closing quote of the template, the selector asks for the
    nav link whose \<^verbatim>\<open>href\<close> is the value of the string.
  \<^item> When the string ends at a quote inside the id and a letter or digit follows that
    cannot begin the modifier \<^verbatim>\<open>i\<close> or \<^verbatim>\<open>s\<close>, the attribute selector is malformed
    and the call throws a SyntaxError.
  \<^item> Every other text needs more of the selector syntax than is modelled here, and so
    does an id with NUL, a line break or a lone surrogate in it: there the answer of the
    browser is the parameter \<open>other\<close>.
\<close>

definition selector_text :: "jsstring \<Rightarrow> jsstring" where
  "selector_text v = lit ''nav ul li a[href='' @ [0x0022, 0x0023] @ v @ [0x0022, 0x005D]"

definition sel_link :: "jsstring \<Rightarrow> selector" where
  "sel_link v = [[Tag (lit ''nav'')], [Tag (lit ''ul'')], [Tag (lit ''li'')],
                 [Tag (lit ''a''), AttrEq (lit ''href'') v]]"

definition readable :: "jsstring \<Rightarrow> bool" where
  "readable v \<longleftrightarrow>
     list_all (\<lambda>c. c \<notin> set [0x00, 0x0A, 0x0C, 0x0D] \<and> \<not> (0xD800 \<le> c \<and> c \<le> 0xDFFF))
       (utf16_decode v)"

definition breaks_selector :: "nat \<Rightarrow> bool" where
  "breaks_selector c \<longleftrightarrow>
     ((0x30 \<le> c \<and> c \<le> 0x39) \<or> (0x41 \<le> c \<and> c \<le> 0x5A) \<or> (0x61 \<le> c \<and> c \<le> 0x7A)) \<and>
     c \<notin> set [0x49, 0x53, 0x69, 0x73]"

definition qs_link ::
  "(element list \<Rightarrow> jsstring \<Rightarrow> js_error + ref option) \<Rightarrow> element list \<Rightarrow> jsstring \<Rightarrow>
   js_error + ref option" where
  "qs_link other d v =
     (if readable v then
        (case css_string Plain [] (utf16_decode (0x0023 # v @ [0x0022, 0x005D])) of
           (Closed, val, rest) \<Rightarrow>
             if rest = [0x5D] then Inr (qs d (sel_link (utf16_encode val)))
             else if breaks_selector (hd rest) then Inl SyntaxError
             else other d (selector_text v)
         | (_, val, rest) \<Rightarrow> other d (selector_text v))
      else other d (selector_text v))"

text \<open>\<^verbatim>\<open>sec.getAttribute('id')\<close> inside the template literal: \<^verbatim>\<open>null\<close> prints as its name.\<close>

definition section_id :: "element \<Rightarrow> jsstring" where
  "section_id e = (case getAttribute e (lit ''id'') of None \<Rightarrow> lit ''null'' | Some v \<Rightarrow> v)"

definition in_section :: "real \<Rightarrow> element \<Rightarrow> bool" where
  "in_section scrollPos e \<longleftrightarrow>
     (let top = offsetTop e; bottom = top + offsetHeight e
      in real_of_int top \<le> scrollPos \<and> scrollPos < real_of_int bottom)"

definition clear_active :: "ref list \<Rightarrow> element list \<Rightarrow> element list" where
  "clear_active links d = fold (\<lambda>l. upd l (class_remove (lit ''active''))) links d"

fun highlight_loop ::
  "(element list \<Rightarrow> jsstring \<Rightarrow> js_error + ref option) \<Rightarrow> env \<Rightarrow> real \<Rightarrow> ref list \<Rightarrow> state \<Rightarrow>
   js_error + state" where
  "highlight_loop other env scrollPos [] s = Inr s"
| "highlight_loop other env scrollPos (sec # rest) s =
     (case qs_link other (doc s) (section_id (doc s ! sec)) of
        Inl e \<Rightarrow> Inl e
      | Inr link \<Rightarrow>
          if in_section scrollPos (doc s ! sec) then
            (let d1 = clear_active (navLinks env) (doc s);
                 d2 = (case link of None \<Rightarrow> d1 | Some l \<Rightarrow> upd l (class_add (lit ''active'')) d1)
             in highlight_loop other env scrollPos rest (s\<lparr>doc := d2\<rparr>))
          else highlight_loop other env scrollPos rest s)"

definition onScrollHighlight ::
  "(element list \<Rightarrow> jsstring \<Rightarrow> js_error + ref option) \<Rightarrow> env \<Rightarrow> state \<Rightarrow> js_error + state" where
  "onScrollHighlight other env s = highlight_loop other env (scrollY s + 120) (sections env) s"

subsection \<open>Contact form\<close>

text \<open>\<^verbatim>\<open>qs(sel).value.trim()\<close>: a missing element, or one without a string value, throws.\<close>

definition field_text :: "element list \<Rightarrow> selector \<Rightarrow> js_error + jsstring" where
  "field_text d sel =
     (case qs d sel of
        None \<Rightarrow> Inl TypeError
      | Some i \<Rightarrow> (case fieldValue (d ! i) of None \<Rightarrow> Inl TypeError | Some v \<Rightarrow> Inr (trim v)))"

definition validate :: "jsstring \<Rightarrow> jsstring \<Rightarrow> jsstring \<Rightarrow> jsstring list" where
  "validate name email message =
     (if name = [] then [lit ''Please enter your name.''] else []) @
     (if email = [] \<or> \<not> emailRegex_test email then [lit ''Please enter a valid email.''] else []) @
     (if message = [] then [lit ''Please add a message.''] else [])"

definition success_message :: jsstring where
  "success_message = lit ''Message sent successfully! Thank you '' @ [0xD83D, 0xDE0A]"

text \<open>\<^verbatim>\<open>if (!feedback) console.warn(...)\<close>\<close>

definition warn_missing :: "ref option \<Rightarrow> state \<Rightarrow> state" where
  "warn_missing feedback s =
     (if feedback = None
      then s\<lparr>warnings := warnings s @
              [lit ''Missing #form-feedback element for showing messages.'']\<rparr>
      else s)"

definition report_errors :: "ref option \<Rightarrow> jsstring list \<Rightarrow> state \<Rightarrow> state" where
  "report_errors feedback errors s =
     (case feedback of
        Some fb \<Rightarrow>
          s\<lparr>doc := upd fb (class_add (lit ''error''))
                     (upd fb (class_remove (lit ''success''))
                       (set_textContent fb (join (lit '' '') errors) (doc s)))\<rparr>
      | None \<Rightarrow> s\<lparr>alerts := alerts s @ [join [0x000A] errors]\<rparr>)"

definition report_success :: "ref option \<Rightarrow> state \<Rightarrow> state" where
  "report_success feedback s =
     (case feedback of
        Some fb \<Rightarrow>
          s\<lparr>doc := upd fb (class_add (lit ''success''))
                     (upd fb (class_remove (lit ''error''))
                       (set_textContent fb success_message (doc s)))\<rparr>
      | None \<Rightarrow> s\<lparr>alerts := alerts s @ [success_message]\<rparr>)"

text \<open>
  \<^verbatim>\<open>contactForm.reset()\<close>: only a form element has the method, and a control of the
  form called \<^verbatim>\<open>reset\<close> hides it; the call throws a TypeError in both cases.
\<close>

definition reset_form :: "ref option \<Rightarrow> state \<Rightarrow> js_error + state" where
  "reset_form form s =
     (case form of
        None \<Rightarrow> Inl TypeError
      | Some f \<Rightarrow>
          if localName (doc s ! f) = lit ''form'' \<and> \<not> form_property (doc s) f (lit ''reset'')
          then Inr (s\<lparr>doc := form_reset f (doc s)\<rparr>)
          else Inl TypeError)"

text \<open>
  The submit listener of \<^verbatim>\<open>#contact-form\<close>, registered when \<open>contactForm\<close> is not null.
  (\<^verbatim>\<open>e.preventDefault()\<close> changes nothing in the state modelled here.)
\<close>

definition contact_submit :: "env \<Rightarrow> state \<Rightarrow> js_error + state" where
  "contact_submit env s =
     (case field_text (doc s) (sel_id ''name'') of Inl e \<Rightarrow> Inl e | Inr name \<Rightarrow>
      case field_text (doc s) (sel_id ''email'') of Inl e \<Rightarrow> Inl e | Inr email \<Rightarrow>
      case field_text (doc s) (sel_id ''message'') of Inl e \<Rightarrow> Inl e | Inr message \<Rightarrow>
        let errors = validate name email message;
            feedback = qs (doc s) (sel_id ''form-feedback'');
            s1 = warn_missing feedback s
        in if errors \<noteq> [] then Inr (report_errors feedback errors s1)
           else reset_form (contactForm env) (report_success feedback s1))"

subsection \<open>Modal close button\<close>

text \<open>The click listener of the close button, registered when \<open>modalClose\<close> is not null.\<close>

definition modalClose_click :: "env \<Rightarrow> state \<Rightarrow> js_error + state" where
  "modalClose_click env s =
     (case modal env of
        None \<Rightarrow> Inl TypeError
      | Some m \<Rightarrow> Inr (s\<lparr>doc := upd m (class_remove (lit ''open'')) (doc s), bodyOverflow := []\<rparr>))"

subsection \<open>Back-to-top button\<close>

text \<open>The scroll listener, registered when \<open>backTop\<close> is not null.\<close>

definition backTop_scroll :: "env \<Rightarrow> state \<Rightarrow> js_error + state" where
  "backTop_scroll env s =
     (case backTop env of
        None \<Rightarrow> Inl TypeError
      | Some b \<Rightarrow>
          if scrollY s > 400 then Inr (s\<lparr>doc := upd b (class_add (lit ''visible'')) (doc s)\<rparr>)
          else Inr (s\<lparr>doc := upd b (class_remove (lit ''visible'')) (doc s)\<rparr>))"

subsection \<open>Theme toggle\<close>

definition THEME_KEY :: jsstring where
  "THEME_KEY = lit ''portfolio-theme''"

text \<open>\<^verbatim>\<open>themeToggle && themeToggle.setAttribute('aria-pressed', v)\<close>\<close>

definition set_pressed :: "env \<Rightarrow> jsstring \<Rightarrow> element list \<Rightarrow> element list" where
  "set_pressed env v d =
     (case themeToggle env of None \<Rightarrow> d | Some t \<Rightarrow> upd t (setAttribute (lit ''aria-pressed'') v) d)"

definition applyTheme :: "env \<Rightarrow> jsstring \<Rightarrow> state \<Rightarrow> js_error + state" where
  "applyTheme env theme s =
     (case root_el env of
        None \<Rightarrow> Inl TypeError
      | Some r \<Rightarrow>
          if theme = lit ''dark'' then
            Inr (s\<lparr>doc := set_pressed env (lit ''true'') (upd r (class_add (lit ''dark-theme'')) (doc s))\<rparr>)
          else
            Inr (s\<lparr>doc := set_pressed env (lit ''false'') (upd r (class_remove (lit ''dark-theme'')) (doc s))\<rparr>))"

text \<open>
  Loading the script: the constants are bound, and the saved theme is applied.
  \<^verbatim>\<open>localStorage.getItem(THEME_KEY) || 'light'\<close> takes \<^verbatim>\<open>'light'\<close> for a missing entry and
  for the empty string.
\<close>

definition saved_theme :: "state \<Rightarrow> jsstring" where
  "saved_theme s =
     (case localStorage s THEME_KEY of
        None \<Rightarrow> lit ''light''
      | Some v \<Rightarrow> if v = [] then lit ''light'' else v)"

definition load :: "state \<Rightarrow> js_error + (env \<times> state)" where
  "load s =
     (let env = script_consts (doc s) in
      case applyTheme env (saved_theme s) s of
        Inl e \<Rightarrow> Inl e
      | Inr s' \<Rightarrow> Inr (env, s'))"

text \<open>The click listener of \<^verbatim>\<open>#theme-toggle\<close>, registered when \<open>themeToggle\<close> is not null.\<close>

definition themeToggle_click :: "env \<Rightarrow> state \<Rightarrow> js_error + state" where
  "themeToggle_click env s =
     (case root_el env of
        None \<Rightarrow> Inl TypeError
      | Some r \<Rightarrow>
          let cur = (if class_contains (lit ''dark-theme'') (doc s ! r) then lit ''dark'' else lit ''light'');
              next = (if cur = lit ''dark'' then lit ''light'' else lit ''dark'')
          in case applyTheme env next s of
               Inl e \<Rightarrow> Inl e
             | Inr s' \<Rightarrow> Inr (s'\<lparr>localStorage := fun_upd (localStorage s') THEME_KEY (Some next)\<rparr>))"

subsection \<open>Notions for stating the properties\<close>

text \<open>Two clicks on the theme toggle, one after the other.\<close>

definition click_twice :: "env \<Rightarrow> state \<Rightarrow> js_error + state" where
  "click_twice env s =
     (case themeToggle_click env s of Inl e \<Rightarrow> Inl e | Inr s1 \<Rightarrow> themeToggle_click env s1)"

text \<open>
  A section id that a CSS string leaves as it is: no NUL, line break, double quote,
  backslash or surrogate in it.
\<close>

definition css_plain :: "jsstring \<Rightarrow> bool" where
  "css_plain v \<longleftrightarrow>
     list_all (\<lambda>c. c \<notin> set [0x0000, 0x000A, 0x000C, 0x000D, 0x0022, 0x005C]
                  \<and> \<not> (0xD800 \<le> c \<and> c \<le> 0xDFFF)) v"


text \<open>The theme as the claims see it: the class on the root and the stored string.\<close>

definition theme_pair :: "ref \<Rightarrow> state \<Rightarrow> bool \<times> jsstring option" where
  "theme_pair r s = (class_contains (lit ''dark-theme'') (doc s ! r), localStorage s THEME_KEY)"

section \<open>Example pages\<close>

text \<open>
  Small pages on which the listeners are evaluated. \<open>el\<close> builds an element with the given
  tag, parent and attributes, without classes, text or value, laid out at offset 0 with
  height 0; \<open>page\<close> is the state of a freshly opened page with empty storage.
\<close>

definition el :: "string \<Rightarrow> ref option \<Rightarrow> (string \<times> string) list \<Rightarrow> element" where
  "el t p as =
     \<lparr>localName = lit t, parentRef = p, attrs = map (\<lambda>(k, v). (lit k, lit v)) as,
      classList = [], textContent = [], fieldValue = None, defaultValue = [],
      offsetTop = 0, offsetHeight = 0\<rparr>"

definition page :: "element list \<Rightarrow> state" where
  "page d = \<lparr>doc = d, localStorage = Map.empty, scrollY = 0, alerts = [], warnings = [],
             bodyOverflow = []\<rparr>"

text \<open>A page with the back-to-top button, scrolled to 450px.\<close>

definition page_top :: state where
  "page_top = (page [el ''html'' None [], el ''body'' (Some 0) [],
                     el ''button'' (Some 1) [(''id'', ''back-to-top'')]])\<lparr>scrollY := 450\<rparr>"

text \<open>A page with the theme toggle: on a first visit, and with the dark theme stored.\<close>

definition page_theme :: state where
  "page_theme = page [el ''html'' None [], el ''body'' (Some 0) [],
                      el ''button'' (Some 1) [(''id'', ''theme-toggle'')]]"

definition page_theme_dark :: state where
  "page_theme_dark = page_theme\<lparr>localStorage := [THEME_KEY \<mapsto> lit ''dark'']\<rparr>"

text \<open>
  A contact page: the form with its three fields, holding the given texts, and (in
  \<open>form_page\<close>) the feedback paragraph. The first argument is the default value of the
  name field; the other two fields have the empty default.
\<close>

definition control :: "string \<Rightarrow> string \<Rightarrow> ref \<Rightarrow> string \<Rightarrow> string \<Rightarrow> element" where
  "control t i p v dv =
     (el t (Some p) [(''id'', i)])\<lparr>fieldValue := Some (lit v), defaultValue := lit dv\<rparr>"

definition form_elements :: "string \<Rightarrow> string \<Rightarrow> string \<Rightarrow> string \<Rightarrow> element list" where
  "form_elements name_default name email message =
     [el ''html'' None [], el ''body'' (Some 0) [],
      el ''form'' (Some 1) [(''id'', ''contact-form'')],
      control ''input'' ''name'' 2 name name_default,
      control ''input'' ''email'' 2 email [],
      control ''textarea'' ''message'' 2 message []]"

definition form_page :: "string \<Rightarrow> string \<Rightarrow> string \<Rightarrow> string \<Rightarrow> state" where
  "form_page name_default name email message =
     page (form_elements name_default name email message @
           [el ''p'' (Some 2) [(''id'', ''form-feedback'')]])"

definition form_page_no_feedback :: "string \<Rightarrow> string \<Rightarrow> string \<Rightarrow> state" where
  "form_page_no_feedback name email message = page (form_elements [] name email message)"

text \<open>The same page with a reset button in the form that is called \<^verbatim>\<open>reset\<close>.\<close>

definition form_page_reset_button :: "string \<Rightarrow> string \<Rightarrow> string \<Rightarrow> state" where
  "form_page_reset_button name email message =
     page (form_elements [] name email message @
           [el ''input'' (Some 2) [(''type'', ''reset''), (''name'', ''reset'')]])"

text \<open>A page with the nav toggle button and no list inside a nav element.\<close>

definition page_toggle_only :: state where
  "page_toggle_only = page [el ''html'' None [], el ''body'' (Some 0) [],
                            el ''button'' (Some 1) [(''id'', ''nav-toggle'')]]"

text \<open>
  A page with two nav links and the two sections they target, scrolled to 500px, so that
  the offset 620 lies in the second section; the first link is the active one so far.
\<close>

definition section_at :: "string \<Rightarrow> int \<Rightarrow> int \<Rightarrow> element" where
  "section_at i y h =
     (el ''section'' (Some 1) [(''id'', i)])\<lparr>offsetTop := y, offsetHeight := h\<rparr>"

definition nav_elements :: "element list" where
  "nav_elements =
     [el ''html'' None [], el ''body'' (Some 0) [], el ''nav'' (Some 1) [], el ''ul'' (Some 2) [],
      el ''li'' (Some 3) [],
      (el ''a'' (Some 4) [(''href'', ''#about'')])\<lparr>classList := [lit ''active'']\<rparr>,
      el ''li'' (Some 3) [], el ''a'' (Some 6) [(''href'', ''#contact'')]]"

definition page_nav :: state where
  "page_nav = (page (nav_elements @ [section_at ''about'' 0 600, section_at ''contact'' 600 400]))
                \<lparr>scrollY := 500\<rparr>"

text \<open>A page whose only section has an id with a double quote in it, \<^verbatim>\<open>a"b\<close>.\<close>

definition quote_id :: jsstring where
  "quote_id = lit ''a'' @ [0x0022] @ lit ''b''"

definition page_quote :: state where
  "page_quote =
     page [el ''html'' None [], el ''body'' (Some 0) [], el ''nav'' (Some 1) [],
           el ''ul'' (Some 2) [], el ''li'' (Some 3) [],
           (el ''a'' (Some 4) [])\<lparr>attrs := [(lit ''href'', 0x0023 # quote_id)]\<rparr>,
           (el ''section'' (Some 1) [])
             \<lparr>attrs := [(lit ''id'', quote_id)], offsetTop := 0, offsetHeight := 600\<rparr>]"

section \<open>Properties\<close>

subsection \<open>String literals\<close>

lemma of_char_lt_256: "(of_char c :: nat) < 256"
proof -
  have "(of_char c :: nat) mod 256 = of_char c"
    by (rule of_char_mod_256)
  moreover have "(of_char c :: nat) mod 256 < 256"
    by simp
  ultimately show ?thesis
    by simp
qed

lemma unat_of_char: "unat (of_char c :: 16 word) = of_char c"
proof -
  have "(of_char c :: 16 word) = of_nat (of_char c)"
    by (simp add: of_nat_of_char)
  then have "unat (of_char c :: 16 word) = take_bit 16 (of_char c :: nat)"
    by (simp add: unsigned_of_nat)
  also have "\<dots> = of_char c"
  proof -
    have "(of_char c :: nat) < 2 ^ 16"
      by (rule less_trans [OF of_char_lt_256]) simp
    then show ?thesis
      by (simp only: take_bit_nat_eq_self_iff)
  qed
  finally show ?thesis .
qed

lemma of_char_word_eq [simp]: "(of_char c :: 16 word) = of_char d \<longleftrightarrow> c = d"
proof
  assume "(of_char c :: 16 word) = of_char d"
  then have "unat (of_char c :: 16 word) = unat (of_char d :: 16 word)"
    by simp
  then show "c = d"
    by (simp add: unat_of_char)
qed simp

lemma lit_eq_iff [simp]: "lit a = lit b \<longleftrightarrow> a = b"
proof -
  have "inj (of_char :: char \<Rightarrow> 16 word)"
    by (rule injI) simp
  then show ?thesis
    by (simp add: lit_def inj_map_eq_map)
qed

lemma lit_Nil [simp]: "lit [] = []" "lit a = [] \<longleftrightarrow> a = []" "[] = lit a \<longleftrightarrow> a = []"
  by (auto simp: lit_def)

text \<open>The definitions that evaluate a selector on a concrete page.\<close>

lemmas eval_sel =
  page_def el_def script_consts_def qs_def qsa_def sel_id_def isConnected_def
  matches_def matches_compound_def getAttribute_def ancestors.simps upt_rec

subsection \<open>Store and class list\<close>

lemma length_upd [simp]: "length (upd i f d) = length d"
  by (simp add: upd_def)

lemma nth_upd: "upd i f d ! j = (if j = i \<and> i < length d then f (d ! i) else d ! j)"
  by (simp add: upd_def)

lemma class_contains_add [simp]:
  "class_contains c (class_add c' e) \<longleftrightarrow> c = c' \<or> class_contains c e"
  by (auto simp: class_contains_def class_add_def)

lemma class_contains_remove [simp]:
  "class_contains c (class_remove c' e) \<longleftrightarrow> c \<noteq> c' \<and> class_contains c e"
  by (auto simp: class_contains_def class_remove_def)

lemma class_contains_setAttribute [simp]:
  "class_contains c (setAttribute a v e) = class_contains c e"
  by (simp add: class_contains_def setAttribute_def)

lemma class_contains_set_pressed [simp]:
  "class_contains c (set_pressed env v d ! r) = class_contains c (d ! r)"
  by (simp add: set_pressed_def nth_upd split: option.splits)

lemma length_set_pressed [simp]: "length (set_pressed env v d) = length d"
  by (simp add: set_pressed_def split: option.splits)

subsection \<open>Back-to-top button\<close>

text \<open>
  C5. After the scroll listener of the back-to-top button has run, the button has the
  class \<^verbatim>\<open>visible\<close> if and only if \<^verbatim>\<open>window.scrollY\<close> is strictly greater than 400: above
  400 the class is added, at or below 400 it is removed.
\<close>

theorem backTop_scroll_visible:
  assumes "backTop env = Some b" and "b < length (doc s)"
  shows "\<exists>s'. backTop_scroll env s = Inr s' \<and>
           (class_contains (lit ''visible'') (doc s' ! b) \<longleftrightarrow> scrollY s > 400)"
  using assms by (simp add: backTop_scroll_def nth_upd)

theorem backTop_scroll_visible_witness:
  "backTop (script_consts (doc page_top)) = Some 2 \<and> 2 < length (doc page_top) \<and>
   (\<exists>s'. backTop_scroll (script_consts (doc page_top)) page_top = Inr s' \<and>
          class_contains (lit ''visible'') (doc s' ! 2))"
proof -
  have b: "backTop (script_consts (doc page_top)) = Some 2"
    by (simp add: page_top_def eval_sel)
  have l: "2 < length (doc page_top)"
    by (simp add: page_top_def page_def)
  have "scrollY page_top > 400"
    by (simp add: page_top_def page_def)
  with backTop_scroll_visible [OF b l] b l show ?thesis
    by simp
qed

subsection \<open>Theme\<close>

lemma saved_theme_dark:
  "saved_theme s = lit ''dark'' \<longleftrightarrow> localStorage s THEME_KEY = Some (lit ''dark'')"
  by (auto simp: saved_theme_def lit_def split: option.splits)

text \<open>
  C6. Loading the script on a document (which has its root element) succeeds; it reads
  the string stored under \<^verbatim>\<open>portfolio-theme\<close>, with \<^verbatim>\<open>light\<close> for a missing entry, and
  afterwards the root element has the class \<^verbatim>\<open>dark-theme\<close> if and only if the stored
  value is \<^verbatim>\<open>dark\<close>.
\<close>

theorem load_applies_saved_theme:
  assumes "doc s \<noteq> []"
  shows "\<exists>s'. load s = Inr (script_consts (doc s), s') \<and>
           (class_contains (lit ''dark-theme'') (doc s' ! 0) \<longleftrightarrow>
              localStorage s THEME_KEY = Some (lit ''dark''))"
proof -
  have r: "root_el (script_consts (doc s)) = Some 0"
    using assms by (simp add: script_consts_def)
  have len: "0 < length (doc s)"
    using assms by simp
  show ?thesis
  proof (cases "saved_theme s = lit ''dark''")
    case True
    then show ?thesis
      using r len saved_theme_dark [of s]
      by (simp add: load_def applyTheme_def nth_upd Let_def)
  next
    case False
    then show ?thesis
      using r len saved_theme_dark [of s]
      by (simp add: load_def applyTheme_def nth_upd Let_def)
  qed
qed

theorem load_applies_saved_theme_witness:
  "doc page_theme_dark \<noteq> [] \<and>
   (\<exists>s'. load page_theme_dark = Inr (script_consts (doc page_theme_dark), s') \<and>
          class_contains (lit ''dark-theme'') (doc s' ! 0))"
proof -
  have d: "doc page_theme_dark \<noteq> []"
    by (simp add: page_theme_dark_def page_theme_def page_def)
  have "localStorage page_theme_dark THEME_KEY = Some (lit ''dark'')"
    by (simp add: page_theme_dark_def)
  with load_applies_saved_theme [OF d] d show ?thesis
    by simp
qed

lemma themeToggle_click_step:
  assumes "root_el env = Some r" and "r < length (doc s)"
  shows "\<exists>s'. themeToggle_click env s = Inr s' \<and> length (doc s') = length (doc s) \<and>
           (class_contains (lit ''dark-theme'') (doc s' ! r) \<longleftrightarrow>
              \<not> class_contains (lit ''dark-theme'') (doc s ! r)) \<and>
           localStorage s' THEME_KEY =
             Some (if class_contains (lit ''dark-theme'') (doc s ! r) then lit ''light'' else lit ''dark'')"
  using assms
  by (simp add: themeToggle_click_def applyTheme_def nth_upd Let_def lit_def)

text \<open>
  C4 (amended). From every state, three clicks on the theme toggle succeed. The first two
  restore the class state of the root, and leave under \<^verbatim>\<open>portfolio-theme\<close> the name of
  that class state, \<^verbatim>\<open>dark\<close> when the class is present and \<^verbatim>\<open>light\<close> otherwise: the
  stored string is restored exactly when it already named the class state. After one
  click it does, so the second and third click restore both the class state and the
  stored string that the first click left.
\<close>

theorem themeToggle_click_twice:
  assumes "root_el env = Some r" and "r < length (doc s)"
  shows "\<exists>s1 s2 s3.
           themeToggle_click env s = Inr s1 \<and> themeToggle_click env s1 = Inr s2 \<and>
           themeToggle_click env s2 = Inr s3 \<and>
           fst (theme_pair r s2) = fst (theme_pair r s) \<and>
           snd (theme_pair r s2) =
             Some (if fst (theme_pair r s) then lit ''dark'' else lit ''light'') \<and>
           theme_pair r s3 = theme_pair r s1"
proof -
  obtain s1 where 1: "themeToggle_click env s = Inr s1" "length (doc s1) = length (doc s)"
      "class_contains (lit ''dark-theme'') (doc s1 ! r) \<longleftrightarrow>
         \<not> class_contains (lit ''dark-theme'') (doc s ! r)"
      "localStorage s1 THEME_KEY =
         Some (if class_contains (lit ''dark-theme'') (doc s ! r) then lit ''light'' else lit ''dark'')"
    using themeToggle_click_step [OF assms] by blast
  have r1: "r < length (doc s1)" using 1 assms by simp
  obtain s2 where 2: "themeToggle_click env s1 = Inr s2" "length (doc s2) = length (doc s1)"
      "class_contains (lit ''dark-theme'') (doc s2 ! r) \<longleftrightarrow>
         \<not> class_contains (lit ''dark-theme'') (doc s1 ! r)"
      "localStorage s2 THEME_KEY =
         Some (if class_contains (lit ''dark-theme'') (doc s1 ! r) then lit ''light'' else lit ''dark'')"
    using themeToggle_click_step [OF assms(1) r1] by blast
  have r2: "r < length (doc s2)" using 2 r1 by simp
  obtain s3 where 3: "themeToggle_click env s2 = Inr s3"
      "class_contains (lit ''dark-theme'') (doc s3 ! r) \<longleftrightarrow>
         \<not> class_contains (lit ''dark-theme'') (doc s2 ! r)"
      "localStorage s3 THEME_KEY =
         Some (if class_contains (lit ''dark-theme'') (doc s2 ! r) then lit ''light'' else lit ''dark'')"
    using themeToggle_click_step [OF assms(1) r2] by blast
  show ?thesis
    using 1 2 3 by (auto simp: theme_pair_def)
qed

lemmas eval_click =
  click_twice_def themeToggle_click_def applyTheme_def set_pressed_def theme_pair_def
  class_contains_def class_add_def class_remove_def setAttribute_def upd_def THEME_KEY_def

theorem themeToggle_click_twice_witness:
  "root_el (script_consts (doc page_theme_dark)) = Some 0 \<and> 0 < length (doc page_theme_dark) \<and>
   theme_pair 0 page_theme_dark = (False, Some (lit ''dark'')) \<and>
   map_sum id (theme_pair 0) (click_twice (script_consts (doc page_theme_dark)) page_theme_dark)
     = Inr (False, Some (lit ''light''))"
proof -
  have r: "root_el (script_consts (doc page_theme_dark)) = Some 0"
    by (simp add: page_theme_dark_def page_theme_def eval_sel)
  have l: "0 < length (doc page_theme_dark)"
    by (simp add: page_theme_dark_def page_theme_def page_def)
  have p: "theme_pair 0 page_theme_dark = (False, Some (lit ''dark''))"
    by (simp add: page_theme_dark_def page_theme_def page_def el_def theme_pair_def
        class_contains_def)
  from themeToggle_click_twice [OF r l] p r l show ?thesis
    by (auto simp: click_twice_def prod_eq_iff)
qed

text \<open>
  On a first visit nothing is stored and the root has no \<^verbatim>\<open>dark-theme\<close> class. Two
  clicks leave the class absent but store \<^verbatim>\<open>light\<close>: the stored value is not the
  original one.
\<close>

theorem themeToggle_click_twice_counterexample:
  "theme_pair 0 page_theme = (False, None) \<and>
   map_sum id (theme_pair 0) (click_twice (script_consts (doc page_theme)) page_theme)
     = Inr (False, Some (lit ''light''))"
  by (simp add: page_theme_def eval_sel eval_click)


subsection \<open>Contact form\<close>

lemma qs_Some_lt: "qs d sel = Some i \<Longrightarrow> i < length d"
proof -
  assume "qs d sel = Some i"
  then have "i \<in> set (qsa d sel)"
    by (auto simp: qs_def split: list.splits)
  then show ?thesis
    by (simp add: qsa_def)
qed

lemma length_set_textContent [simp]: "length (set_textContent i t d) = length d"
  by (simp add: set_textContent_def)

lemma nth_set_textContent:
  "j < length d \<Longrightarrow>
   set_textContent i t d ! j =
     (if j = i then (d ! j)\<lparr>textContent := t\<rparr>
      else if parentRef (d ! j) = Some i then (d ! j)\<lparr>parentRef := None\<rparr> else d ! j)"
  by (simp add: set_textContent_def)

lemma length_form_reset [simp]: "length (form_reset f d) = length d"
  by (simp add: form_reset_def)


lemma fields_class_add [simp]:
  "textContent (class_add c e) = textContent e"
  "fieldValue (class_add c e) = fieldValue e"
  "defaultValue (class_add c e) = defaultValue e"
  "parentRef (class_add c e) = parentRef e"
  "localName (class_add c e) = localName e"
  "attrs (class_add c e) = attrs e"
  "offsetTop (class_add c e) = offsetTop e"
  "offsetHeight (class_add c e) = offsetHeight e"
  by (simp_all add: class_add_def)

lemma fields_class_remove [simp]:
  "textContent (class_remove c e) = textContent e"
  "fieldValue (class_remove c e) = fieldValue e"
  "defaultValue (class_remove c e) = defaultValue e"
  "parentRef (class_remove c e) = parentRef e"
  "localName (class_remove c e) = localName e"
  "attrs (class_remove c e) = attrs e"
  "offsetTop (class_remove c e) = offsetTop e"
  "offsetHeight (class_remove c e) = offsetHeight e"
  by (simp_all add: class_remove_def)

lemma shown_feedback:
  assumes "fb < length d" and "on \<noteq> off"
  shows "textContent (upd fb (class_add on) (upd fb (class_remove off) (set_textContent fb t d)) ! fb) = t"
    and "class_contains on (upd fb (class_add on) (upd fb (class_remove off) (set_textContent fb t d)) ! fb)"
    and "\<not> class_contains off (upd fb (class_add on) (upd fb (class_remove off) (set_textContent fb t d)) ! fb)"
  using assms by (simp_all add: nth_upd nth_set_textContent)

lemma shown_fields:
  assumes "j < length d"
  shows "fieldValue (upd fb (class_add on) (upd fb (class_remove off) (set_textContent fb t d)) ! j)
           = fieldValue (d ! j)"
    and "defaultValue (upd fb (class_add on) (upd fb (class_remove off) (set_textContent fb t d)) ! j)
           = defaultValue (d ! j)"
    and "localName (upd fb (class_add on) (upd fb (class_remove off) (set_textContent fb t d)) ! j)
           = localName (d ! j)"
  using assms by (simp_all add: nth_upd nth_set_textContent)

lemma contact_submit_fields:
  assumes "qs (doc s) (sel_id ''name'') = Some n" and "fieldValue (doc s ! n) = Some vn"
    and "qs (doc s) (sel_id ''email'') = Some e" and "fieldValue (doc s ! e) = Some ve"
    and "qs (doc s) (sel_id ''message'') = Some m" and "fieldValue (doc s ! m) = Some vm"
  shows "contact_submit env s =
           (if validate (trim vn) (trim ve) (trim vm) \<noteq> [] then
              Inr (report_errors (qs (doc s) (sel_id ''form-feedback''))
                     (validate (trim vn) (trim ve) (trim vm))
                     (warn_missing (qs (doc s) (sel_id ''form-feedback'')) s))
            else
              reset_form (contactForm env)
                (report_success (qs (doc s) (sel_id ''form-feedback''))
                   (warn_missing (qs (doc s) (sel_id ''form-feedback'')) s)))"
  using assms by (simp add: contact_submit_def field_text_def Let_def)

lemma emailRegex_test_Nil [simp]: "\<not> emailRegex_test []"
  by (simp add: emailRegex_test_def emailRegex_def)

lemma success_ne_error: "lit ''success'' \<noteq> lit ''error''" "lit ''error'' \<noteq> lit ''success''"
  by (simp_all add: lit_def)

text \<open>
  The comment above the submit listener names what it requires of the page: the form
  \<^verbatim>\<open>#contact-form\<close> and the inputs \<^verbatim>\<open>#name\<close>, \<^verbatim>\<open>#email\<close> and \<^verbatim>\<open>#message\<close>. The
  properties of the listener are stated for pages that have them.
\<close>

text \<open>
  C2. On a page with the three fields and the feedback element, a submission whose
  trimmed name is empty while the trimmed email matches the pattern and the trimmed
  message is not empty returns normally; it sets the text of the feedback element to
  exactly \<^verbatim>\<open>Please enter your name.\<close>, leaves it with the class \<^verbatim>\<open>error\<close> and without
  the class \<^verbatim>\<open>success\<close>, and resets nothing: every other element keeps its value.
\<close>

theorem submit_empty_name:
  assumes "qs (doc s) (sel_id ''name'') = Some n" and "fieldValue (doc s ! n) = Some vn"
    and "qs (doc s) (sel_id ''email'') = Some e" and "fieldValue (doc s ! e) = Some ve"
    and "qs (doc s) (sel_id ''message'') = Some m" and "fieldValue (doc s ! m) = Some vm"
    and "qs (doc s) (sel_id ''form-feedback'') = Some fb"
    and "trim vn = []"
    and "emailRegex_test (trim ve)"
    and "trim vm \<noteq> []"
  shows "\<exists>s'. contact_submit env s = Inr s' \<and>
           textContent (doc s' ! fb) = lit ''Please enter your name.'' \<and>
           class_contains (lit ''error'') (doc s' ! fb) \<and>
           \<not> class_contains (lit ''success'') (doc s' ! fb) \<and>
           (\<forall>j < length (doc s). j \<noteq> fb \<longrightarrow> fieldValue (doc s' ! j) = fieldValue (doc s ! j))"
proof -
  have "trim ve \<noteq> []"
    using assms(9) by auto
  then have v: "validate (trim vn) (trim ve) (trim vm) = [lit ''Please enter your name.'']"
    using assms(8-10) by (simp add: validate_def)
  have fb: "fb < length (doc s)"
    using assms(7) by (rule qs_Some_lt)
  have "contact_submit env s = Inr (report_errors (Some fb) [lit ''Please enter your name.''] s)"
    using contact_submit_fields [OF assms(1-6), of env] v assms(7)
    by (simp add: warn_missing_def)
  then show ?thesis
    using shown_feedback [OF fb success_ne_error(2)] shown_fields(1)
    by (simp add: report_errors_def)
qed


lemma report_errors_fields:
  assumes "j < length (doc s)"
  shows "fieldValue (doc (report_errors fbo errors (warn_missing fbo s)) ! j) = fieldValue (doc s ! j)"
  using assms shown_fields(1)
  by (cases fbo) (simp_all add: report_errors_def warn_missing_def)

text \<open>
  C3. On a page with the three fields, when the trimmed email is empty or does not match
  the pattern, the list of errors contains \<^verbatim>\<open>Please enter a valid email.\<close>, and the
  listener returns through the error branch: its result is the report of the errors (in
  the feedback element, or by an alert when there is none), not the success message
  followed by a reset.
\<close>

theorem submit_invalid_email:
  assumes "qs (doc s) (sel_id ''name'') = Some n" and "fieldValue (doc s ! n) = Some vn"
    and "qs (doc s) (sel_id ''email'') = Some e" and "fieldValue (doc s ! e) = Some ve"
    and "qs (doc s) (sel_id ''message'') = Some m" and "fieldValue (doc s ! m) = Some vm"
    and "trim ve = [] \<or> \<not> emailRegex_test (trim ve)"
  shows "lit ''Please enter a valid email.'' \<in> set (validate (trim vn) (trim ve) (trim vm)) \<and>
         contact_submit env s =
           Inr (report_errors (qs (doc s) (sel_id ''form-feedback''))
                  (validate (trim vn) (trim ve) (trim vm))
                  (warn_missing (qs (doc s) (sel_id ''form-feedback'')) s))"
proof -
  have v: "lit ''Please enter a valid email.'' \<in> set (validate (trim vn) (trim ve) (trim vm))"
    using assms(7) by (auto simp: validate_def)
  then have "validate (trim vn) (trim ve) (trim vm) \<noteq> []"
    by auto
  then show ?thesis
    using contact_submit_fields [OF assms(1-6), of env] v by simp
qed

text \<open>
  C10. On a page with the three fields, a submission that fails validation (the list of
  errors is not empty) returns normally and leaves the values of the name, email and
  message fields as the user typed them.
\<close>

theorem submit_errors_keep_fields:
  assumes "qs (doc s) (sel_id ''name'') = Some n" and "fieldValue (doc s ! n) = Some vn"
    and "qs (doc s) (sel_id ''email'') = Some e" and "fieldValue (doc s ! e) = Some ve"
    and "qs (doc s) (sel_id ''message'') = Some m" and "fieldValue (doc s ! m) = Some vm"
    and "validate (trim vn) (trim ve) (trim vm) \<noteq> []"
  shows "\<exists>s'. contact_submit env s = Inr s' \<and>
           fieldValue (doc s' ! n) = Some vn \<and>
           fieldValue (doc s' ! e) = Some ve \<and>
           fieldValue (doc s' ! m) = Some vm"
proof -
  have lt: "n < length (doc s)" "e < length (doc s)" "m < length (doc s)"
    using assms(1,3,5) by (auto dest: qs_Some_lt)
  show ?thesis
    using contact_submit_fields [OF assms(1-6), of env] assms(7) assms(2,4,6) lt
    by (simp add: report_errors_fields)
qed


subsubsection \<open>Stores that hold the same tree\<close>


















lemmas eval_form =
  form_page_def form_page_no_feedback_def form_page_reset_button_def form_elements_def control_def


lemma form_page_refs:
  "qs (doc (form_page dv a b c)) (sel_id ''name'') = Some 3"
  "qs (doc (form_page dv a b c)) (sel_id ''email'') = Some 4"
  "qs (doc (form_page dv a b c)) (sel_id ''message'') = Some 5"
  "qs (doc (form_page dv a b c)) (sel_id ''form-feedback'') = Some 6"
  "contactForm (script_consts (doc (form_page dv a b c))) = Some 2"
  by (simp_all add: eval_form eval_sel)



lemma form_page_values:
  "fieldValue (doc (form_page dv a b c) ! 3) = Some (lit a)"
  "fieldValue (doc (form_page dv a b c) ! 4) = Some (lit b)"
  "fieldValue (doc (form_page dv a b c) ! 5) = Some (lit c)"
  "defaultValue (doc (form_page dv a b c) ! 3) = lit dv"
  "defaultValue (doc (form_page dv a b c) ! 4) = []"
  "defaultValue (doc (form_page dv a b c) ! 5) = []"
  "localName (doc (form_page dv a b c) ! 2) = lit ''form''"
  "length (doc (form_page dv a b c)) = 7"
  by (simp_all add: eval_form page_def el_def)









lemma sample_texts:
  "trim (lit '' '') = []"
  "trim [] = []"
  "trim (lit ''Pem'') = lit ''Pem''"
  "trim (lit ''Hello'') = lit ''Hello''"
  "trim (lit ''pem@example.com'') = lit ''pem@example.com''"
  "trim (lit '' pem@example '') = lit ''pem@example''"
  "emailRegex_test (lit ''pem@example.com'')"
  "\<not> emailRegex_test (lit ''pem@example'')"
  by code_simp+

theorem submit_empty_name_witness:
  "\<exists>s'. contact_submit (script_consts (doc (form_page [] '' '' ''pem@example.com'' ''Hello'')))
          (form_page [] '' '' ''pem@example.com'' ''Hello'') = Inr s' \<and>
        textContent (doc s' ! 6) = lit ''Please enter your name.'' \<and>
        class_contains (lit ''error'') (doc s' ! 6) \<and>
        \<not> class_contains (lit ''success'') (doc s' ! 6) \<and>
        fieldValue (doc s' ! 3) = Some (lit '' '') \<and>
        fieldValue (doc s' ! 4) = Some (lit ''pem@example.com'') \<and>
        fieldValue (doc s' ! 5) = Some (lit ''Hello'')"
proof -
  let ?p = "form_page [] '' '' ''pem@example.com'' ''Hello''"
  have t: "trim (lit '' '') = []"
    "emailRegex_test (trim (lit ''pem@example.com''))" "trim (lit ''Hello'') \<noteq> []"
    by (simp_all add: sample_texts)
  from submit_empty_name [OF form_page_refs(1) form_page_values(1) form_page_refs(2)
      form_page_values(2) form_page_refs(3) form_page_values(3) form_page_refs(4) t,
      where env = "script_consts (doc ?p)"]
  obtain s' where r: "contact_submit (script_consts (doc ?p)) ?p = Inr s'"
      "textContent (doc s' ! 6) = lit ''Please enter your name.''"
      "class_contains (lit ''error'') (doc s' ! 6)"
      "\<not> class_contains (lit ''success'') (doc s' ! 6)"
    and keep: "\<forall>j<length (doc ?p). j \<noteq> 6 \<longrightarrow> fieldValue (doc s' ! j) = fieldValue (doc ?p ! j)"
    by blast
  have "fieldValue (doc s' ! 3) = Some (lit '' '')"
    "fieldValue (doc s' ! 4) = Some (lit ''pem@example.com'')"
    "fieldValue (doc s' ! 5) = Some (lit ''Hello'')"
    using keep by (simp_all add: form_page_values)
  with r show ?thesis
    by blast
qed

theorem submit_invalid_email_witness:
  "lit ''Please enter a valid email.''
     \<in> set (validate (lit ''Pem'') (lit ''pem@example'') (lit ''Hello'')) \<and>
   contact_submit (script_consts (doc (form_page [] ''Pem'' '' pem@example '' ''Hello'')))
     (form_page [] ''Pem'' '' pem@example '' ''Hello'') =
   Inr (report_errors (Some 6) [lit ''Please enter a valid email.'']
          (form_page [] ''Pem'' '' pem@example '' ''Hello''))"
proof -
  let ?p = "form_page [] ''Pem'' '' pem@example '' ''Hello''"
  have t: "trim (lit '' pem@example '') = [] \<or> \<not> emailRegex_test (trim (lit '' pem@example ''))"
    by (simp add: sample_texts)
  have v: "validate (lit ''Pem'') (lit ''pem@example'') (lit ''Hello'')
             = [lit ''Please enter a valid email.'']"
    by (simp add: validate_def sample_texts)
  from submit_invalid_email [OF form_page_refs(1) form_page_values(1) form_page_refs(2)
      form_page_values(2) form_page_refs(3) form_page_values(3) t,
      where env = "script_consts (doc ?p)"]
  show ?thesis
    by (simp add: sample_texts form_page_refs v warn_missing_def)
qed

theorem submit_errors_keep_fields_witness:
  "\<exists>s'. contact_submit (script_consts (doc (form_page [] ''Pem'' '' pem@example '' ''Hello'')))
          (form_page [] ''Pem'' '' pem@example '' ''Hello'') = Inr s' \<and>
        fieldValue (doc s' ! 3) = Some (lit ''Pem'') \<and>
        fieldValue (doc s' ! 4) = Some (lit '' pem@example '') \<and>
        fieldValue (doc s' ! 5) = Some (lit ''Hello'')"
proof -
  let ?p = "form_page [] ''Pem'' '' pem@example '' ''Hello''"
  have v: "validate (trim (lit ''Pem'')) (trim (lit '' pem@example '')) (trim (lit ''Hello'')) \<noteq> []"
    by (simp add: validate_def sample_texts)
  from submit_errors_keep_fields [OF form_page_refs(1) form_page_values(1) form_page_refs(2)
      form_page_values(2) form_page_refs(3) form_page_values(3) v,
      where env = "script_consts (doc ?p)"]
  show ?thesis .
qed






subsection \<open>The email pattern\<close>

lemma rx_match_plus:
  "rx_match (NotSpaceAtPlus # r) s \<longleftrightarrow>
     (\<exists>a t. s = a @ t \<and> a \<noteq> [] \<and> list_all not_space_at a \<and> rx_match r t)"
proof (induction s)
  case Nil
  then show ?case by simp
next
  case (Cons x xs)
  show ?case
  proof
    assume m: "rx_match (NotSpaceAtPlus # r) (x # xs)"
    then have x: "not_space_at x" and "rx_match r xs \<or> rx_match (NotSpaceAtPlus # r) xs"
      by simp_all
    then show "\<exists>a t. x # xs = a @ t \<and> a \<noteq> [] \<and> list_all not_space_at a \<and> rx_match r t"
    proof (elim disjE)
      assume "rx_match r xs"
      with x have "x # xs = [x] @ xs \<and> [x] \<noteq> [] \<and> list_all not_space_at [x] \<and> rx_match r xs"
        by simp
      then show ?thesis by blast
    next
      assume "rx_match (NotSpaceAtPlus # r) xs"
      then obtain a t where "xs = a @ t" "list_all not_space_at a" "rx_match r t"
        using Cons.IH by blast
      with x have "x # xs = (x # a) @ t \<and> x # a \<noteq> [] \<and> list_all not_space_at (x # a) \<and> rx_match r t"
        by simp
      then show ?thesis by blast
    qed
  next
    assume "\<exists>a t. x # xs = a @ t \<and> a \<noteq> [] \<and> list_all not_space_at a \<and> rx_match r t"
    then obtain a t where at: "x # xs = a @ t" "a \<noteq> []" "list_all not_space_at a" "rx_match r t"
      by blast
    then obtain a' where a: "a = x # a'" "xs = a' @ t"
      by (cases a) auto
    show "rx_match (NotSpaceAtPlus # r) (x # xs)"
    proof (cases "a' = []")
      case True
      with a at show ?thesis by simp
    next
      case False
      with a at have "rx_match (NotSpaceAtPlus # r) xs"
        using Cons.IH by auto
      with a at show ?thesis by simp
    qed
  qed
qed

lemma rx_match_ch: "rx_match (Ch c # r) s \<longleftrightarrow> (\<exists>t. s = c # t \<and> rx_match r t)"
  by (cases s) auto

text \<open>
  The strings that the email pattern accepts: a local part, \<^verbatim>\<open>@\<close>, a domain part,
  a dot and a last part, where the three parts are not empty and contain neither white
  space nor \<^verbatim>\<open>@\<close>.
\<close>

lemma emailRegex_test_iff:
  "emailRegex_test s \<longleftrightarrow>
     (\<exists>a b c. s = a @ [0x40] @ b @ [0x2E] @ c \<and> a \<noteq> [] \<and> b \<noteq> [] \<and> c \<noteq> [] \<and>
              list_all not_space_at a \<and> list_all not_space_at b \<and> list_all not_space_at c)"
  unfolding emailRegex_test_def emailRegex_def rx_match_plus rx_match_ch
  by simp blast


subsection \<open>Nav toggle, nav links and modal close button\<close>

lemma matches_up_Cons:
  "matches_up d (c # cs) as \<Longrightarrow>
   \<exists>pre k post. as = pre @ k # post \<and> matches_compound (d ! k) c \<and> matches_up d cs post"
proof (induction as)
  case Nil
  then show ?case by simp
next
  case (Cons a as)
  show ?case
  proof (cases "matches_compound (d ! a) c")
    case True
    with Cons.prems have "matches_up d cs as"
      by simp
    with True have "a # as = [] @ a # as \<and> matches_compound (d ! a) c \<and> matches_up d cs as"
      by simp
    then show ?thesis
      by blast
  next
    case False
    with Cons.prems have "matches_up d (c # cs) as"
      by simp
    then obtain pre k post where
      "as = pre @ k # post" "matches_compound (d ! k) c" "matches_up d cs post"
      using Cons.IH by blast
    then have "a # as = (a # pre) @ k # post \<and> matches_compound (d ! k) c \<and> matches_up d cs post"
      by simp
    then show ?thesis
      by blast
  qed
qed

lemma ancestors_suffix:
  "ancestors d i = pre @ k # post \<Longrightarrow> ancestors d k = post \<and> k < length d"
proof (induction pre arbitrary: i)
  case Nil
  then show ?case
    by (subst (asm) ancestors.simps) (auto split: if_splits option.splits)
next
  case (Cons x pre)
  from Cons.prems have "ancestors d x = pre @ k # post"
    by (subst (asm) ancestors.simps) (auto split: if_splits option.splits)
  then show ?case
    by (rule Cons.IH)
qed

lemma isConnected_ancestor:
  assumes "isConnected d i" and "ancestors d i = pre @ k # post"
  shows "isConnected d k"
proof -
  have "ancestors d k = post" "k < length d"
    using ancestors_suffix [OF assms(2)] by simp_all
  moreover have "last (k # post) = 0"
    using assms by (simp add: isConnected_def)
  ultimately show ?thesis
    by (simp add: isConnected_def)
qed

lemma qs_found: "i \<in> set (qsa d sel) \<Longrightarrow> qs d sel \<noteq> None"
  by (auto simp: qs_def split: list.splits)

lemma in_qsa: "i \<in> set (qsa d sel) \<longleftrightarrow> isConnected d i \<and> matches d sel i"
  by (auto simp: qsa_def isConnected_def)

text \<open>
  A nav link lies in a list inside a nav element, so when the script finds a nav link it
  also finds \<open>navUL\<close>; and the close button lies inside the modal.
\<close>

lemma navLinks_navUL:
  assumes "l \<in> set (navLinks (script_consts d))"
  shows "navUL (script_consts d) \<noteq> None"
proof -
  from assms have c: "isConnected d l" and m: "matches d sel_navLinks l"
    by (simp_all add: script_consts_def in_qsa)
  from m have "matches_up d [[Tag (lit ''li'')], [Tag (lit ''ul'')], [Tag (lit ''nav'')]] (ancestors d l)"
    by (simp add: matches_def sel_navLinks_def)
  then obtain pre1 k1 post1 where 1: "ancestors d l = pre1 @ k1 # post1"
      "matches_up d [[Tag (lit ''ul'')], [Tag (lit ''nav'')]] post1"
    using matches_up_Cons by blast
  then obtain pre2 k2 post2 where 2: "post1 = pre2 @ k2 # post2"
      "matches_compound (d ! k2) [Tag (lit ''ul'')]"
      "matches_up d [[Tag (lit ''nav'')]] post2"
    using matches_up_Cons by blast
  have a: "ancestors d l = (pre1 @ k1 # pre2) @ k2 # post2"
    using 1 2 by simp
  have "ancestors d k2 = post2"
    using ancestors_suffix [OF a] by simp
  with 2 have "matches d sel_navUL k2"
    by (simp add: matches_def sel_navUL_def)
  moreover have "isConnected d k2"
    using c a by (rule isConnected_ancestor)
  ultimately have "k2 \<in> set (qsa d sel_navUL)"
    by (simp add: in_qsa)
  then show ?thesis
    by (simp add: script_consts_def qs_found)
qed

lemma navLink_click_safe:
  assumes "l \<in> set (navLinks (script_consts d))"
  shows "\<exists>s'. navLink_click (script_consts d) s = Inr s'"
  using navLinks_navUL [OF assms] by (auto simp: navLink_click_def)

lemma modalClose_modal:
  assumes "modalClose (script_consts d) = Some c"
  shows "modal (script_consts d) \<noteq> None"
proof -
  from assms have "c \<in> set (qsa d sel_modalClose)"
    by (auto simp: script_consts_def qs_def split: list.splits)
  then have c: "isConnected d c" and m: "matches d sel_modalClose c"
    by (simp_all add: in_qsa)
  from m have "matches_up d [[Hash (lit ''project-modal'')]] (ancestors d c)"
    by (simp add: matches_def sel_modalClose_def)
  then obtain pre k post where 1: "ancestors d c = pre @ k # post"
      "matches_compound (d ! k) [Hash (lit ''project-modal'')]"
    using matches_up_Cons by blast
  then have "matches d (sel_id ''project-modal'') k"
    by (simp add: matches_def sel_id_def)
  moreover have "isConnected d k"
    using c 1(1) by (rule isConnected_ancestor)
  ultimately have "k \<in> set (qsa d (sel_id ''project-modal''))"
    by (simp add: in_qsa)
  then show ?thesis
    by (simp add: script_consts_def qs_found)
qed

lemma modalClose_click_safe:
  assumes "modalClose (script_consts d) = Some c"
  shows "\<exists>s'. modalClose_click (script_consts d) s = Inr s'"
  using modalClose_modal [OF assms] by (auto simp: modalClose_click_def)

text \<open>
  C1. On a page that has the \<^verbatim>\<open>#nav-toggle\<close> button but no list inside a nav element,
  the script loads and registers the click listener of the button, and \<open>navUL\<close> is
  null: a click on the button throws a TypeError instead of doing nothing.
\<close>

theorem navToggle_click_without_navUL:
  "load page_toggle_only = Inr (script_consts (doc page_toggle_only), page_toggle_only) \<and>
   navToggle (script_consts (doc page_toggle_only)) = Some 2 \<and>
   navUL (script_consts (doc page_toggle_only)) = None \<and>
   navToggle_click (script_consts (doc page_toggle_only)) page_toggle_only = Inl TypeError"
proof -
  have e: "navToggle (script_consts (doc page_toggle_only)) = Some 2"
    "navUL (script_consts (doc page_toggle_only)) = None"
    "themeToggle (script_consts (doc page_toggle_only)) = None"
    "root_el (script_consts (doc page_toggle_only)) = Some 0"
    by (simp_all add: page_toggle_only_def sel_navUL_def eval_sel)
  have "load page_toggle_only = Inr (script_consts (doc page_toggle_only), page_toggle_only)"
    using e by (simp add: load_def applyTheme_def set_pressed_def saved_theme_def upd_def
        class_remove_def page_toggle_only_def page_def el_def lit_def)
  then show ?thesis
    using e by (simp add: navToggle_click_def)
qed


subsection \<open>Active link highlight\<close>

text \<open>A plain id goes through the string of the selector unchanged.\<close>

lemma utf16_decode_plain:
  "list_all (\<lambda>c. \<not> (0xD800 \<le> c \<and> c \<le> 0xDFFF)) v \<Longrightarrow> utf16_decode v = map unat v"
  by (induction v rule: utf16_decode.induct)
    (auto simp: high_surrogate_def low_surrogate_def word_le_nat_alt)

lemma css_string_plain:
  "list_all (\<lambda>c. c \<noteq> 0x22 \<and> c \<noteq> 0x0A \<and> c \<noteq> 0x5C) xs \<Longrightarrow>
   css_string Plain acc (xs @ 0x22 # r) = (Closed, acc @ xs, r)"
  by (induction xs arbitrary: acc) simp_all

lemma utf16_encode_unat: "utf16_encode (map unat v) = (v :: jsstring)"
proof (induction v)
  case Nil
  then show ?case by simp
next
  case (Cons c v)
  have "unat c < 2 ^ 16"
    using unsigned_less [of c] by simp
  then have "unat c < 0x10000"
    by simp
  with Cons show ?case
    by simp
qed

lemma code_unit_nat:
  fixes c :: "16 word"
  shows "unat c = 0 \<longleftrightarrow> c = 0" "unat c = 0x0A \<longleftrightarrow> c = 0x0A" "unat c = 0x0C \<longleftrightarrow> c = 0x0C"
    "unat c = 0x0D \<longleftrightarrow> c = 0x0D" "unat c = 0x22 \<longleftrightarrow> c = 0x22" "unat c = 0x5C \<longleftrightarrow> c = 0x5C"
    "0xD800 \<le> unat c \<longleftrightarrow> 0xD800 \<le> c" "unat c \<le> 0xDFFF \<longleftrightarrow> c \<le> 0xDFFF"
  by (simp_all add: word_unat_eq_iff word_le_nat_alt)

lemma qs_link_plain:
  assumes "css_plain v"
  shows "qs_link other d v = Inr (qs d (sel_link (0x0023 # v)))"
proof -
  let ?w = "0x0023 # v @ [0x0022, 0x005D]"
  have "list_all (\<lambda>c. \<not> (0xD800 \<le> c \<and> c \<le> 0xDFFF)) v"
    using assms by (simp add: css_plain_def list_all_iff)
  then have "utf16_decode v = map unat v"
    by (rule utf16_decode_plain)
  then have rd: "readable v"
    using assms by (simp add: readable_def css_plain_def list_all_iff code_unit_nat unat_gt_0)
  have ns: "list_all (\<lambda>c. \<not> (0xD800 \<le> c \<and> c \<le> 0xDFFF)) ?w"
    using assms by (simp add: css_plain_def list_all_iff)
  have dec: "utf16_decode ?w = 0x23 # map unat v @ [0x22, 0x5D]"
    using utf16_decode_plain [OF ns] by simp
  have "list_all (\<lambda>c. c \<noteq> 0x22 \<and> c \<noteq> 0x0A \<and> c \<noteq> 0x5C) (0x23 # map unat v)"
    using assms by (simp add: css_plain_def list_all_iff code_unit_nat)
  then have str: "css_string Plain [] ((0x23 # map unat v) @ 0x22 # [0x5D])
                    = (Closed, [] @ 0x23 # map unat v, [0x5D])"
    by (rule css_string_plain)
  have enc: "utf16_encode (0x23 # map unat v) = 0x0023 # v"
    using utf16_encode_unat [of "0x0023 # v"] by simp
  show ?thesis
    using rd dec str enc by (simp add: qs_link_def)
qed

text \<open>An id that is an emoji, and an id with a backslash in it, which escapes the \<^verbatim>\<open>b\<close>.\<close>

lemma qs_link_examples:
  "qs_link other d [0xD83D, 0xDE0A] = Inr (qs d (sel_link [0x0023, 0xD83D, 0xDE0A]))"
  "qs_link other d (lit ''a'' @ [0x005C] @ lit ''b'') = Inr (qs d (sel_link [0x0023, 0x0061, 0x000B]))"
  by (simp_all add: qs_link_def readable_def lit_def high_surrogate_def low_surrogate_def
      hex_digit_def hex_value_def code_point_def css_white_def)

lemma clear_active_length [simp]: "length (clear_active ls d) = length d"
  unfolding clear_active_def by (induction ls arbitrary: d) simp_all

lemma clear_active_Cons:
  "clear_active (l # ls) d = clear_active ls (upd l (class_remove (lit ''active'')) d)"
  by (simp add: clear_active_def)

lemma clear_active_Nil [simp]: "clear_active [] d = d"
  by (simp add: clear_active_def)

lemma clear_active_keeps:
  "attrs (clear_active ls d ! j) = attrs (d ! j)"
  "offsetTop (clear_active ls d ! j) = offsetTop (d ! j)"
  "offsetHeight (clear_active ls d ! j) = offsetHeight (d ! j)"
  by (induction ls arbitrary: d) (simp_all add: clear_active_Cons nth_upd)

lemma clear_active_class:
  "class_contains c (clear_active ls d ! j) \<longleftrightarrow>
     class_contains c (d ! j) \<and> \<not> (c = lit ''active'' \<and> j \<in> set ls \<and> j < length d)"
  by (induction ls arbitrary: d) (auto simp: clear_active_Cons nth_upd)

text \<open>The document after the body of the \<^verbatim>\<open>if\<close> in the loop has run for a section.\<close>

lemma marked_keeps:
  "section_id ((case link of None \<Rightarrow> clear_active ls d
                 | Some l \<Rightarrow> upd l (class_add (lit ''active'')) (clear_active ls d)) ! j)
     = section_id (d ! j)"
  "in_section pos ((case link of None \<Rightarrow> clear_active ls d
                     | Some l \<Rightarrow> upd l (class_add (lit ''active'')) (clear_active ls d)) ! j)
     = in_section pos (d ! j)"
  by (cases link; simp add: section_id_def in_section_def getAttribute_def nth_upd clear_active_keeps)+

lemma highlight_loop_outside:
  assumes "\<forall>x \<in> set xs. css_plain (section_id (doc s ! x)) \<and> \<not> in_section pos (doc s ! x)"
  shows "highlight_loop other env pos xs s = Inr s"
  using assms by (induction xs) (simp_all add: qs_link_plain)

lemma highlight_loop_inside:
  assumes "distinct xs" and "sec \<in> set xs"
    and "\<forall>x \<in> set xs. css_plain (section_id (doc s ! x))"
    and "in_section pos (doc s ! sec)"
    and "\<forall>x \<in> set xs. in_section pos (doc s ! x) \<longrightarrow> x = sec"
  shows "highlight_loop other env pos xs s =
           Inr (s\<lparr>doc := (case qs (doc s) (sel_link (0x0023 # section_id (doc s ! sec))) of
                            None \<Rightarrow> clear_active (navLinks env) (doc s)
                          | Some l \<Rightarrow> upd l (class_add (lit ''active''))
                                        (clear_active (navLinks env) (doc s)))\<rparr>)"
  using assms(1,2,3,5)
proof (induction xs)
  case Nil
  from Nil.prems(2) show ?case
    by simp
next
  case (Cons x xs)
  let ?d2 = "case qs (doc s) (sel_link (0x0023 # section_id (doc s ! sec))) of
               None \<Rightarrow> clear_active (navLinks env) (doc s)
             | Some l \<Rightarrow> upd l (class_add (lit ''active'')) (clear_active (navLinks env) (doc s))"
  have plain_x: "css_plain (section_id (doc s ! x))"
    using Cons.prems(3) by simp
  have plain_xs: "\<forall>y \<in> set xs. css_plain (section_id (doc s ! y))"
    using Cons.prems(3) by simp
  have only_xs: "\<forall>y \<in> set xs. in_section pos (doc s ! y) \<longrightarrow> y = sec"
    using Cons.prems(4) by simp
  have dist: "distinct xs" "x \<notin> set xs"
    using Cons.prems(1) by simp_all
  show ?case
  proof (cases "x = sec")
    case True
    have rest: "css_plain (section_id (doc s ! y)) \<and> \<not> in_section pos (doc s ! y)"
      if "y \<in> set xs" for y
    proof -
      have "y \<noteq> sec"
        using that dist(2) True by blast
      then show ?thesis
        using that plain_xs only_xs by blast
    qed
    have step: "highlight_loop other env pos (x # xs) s = highlight_loop other env pos xs (s\<lparr>doc := ?d2\<rparr>)"
      using plain_x assms(4) True by (simp add: qs_link_plain Let_def)
    have doc2: "doc (s\<lparr>doc := ?d2\<rparr>) = ?d2"
      by simp
    have "\<forall>y \<in> set xs. css_plain (section_id (doc (s\<lparr>doc := ?d2\<rparr>) ! y))
                       \<and> \<not> in_section pos (doc (s\<lparr>doc := ?d2\<rparr>) ! y)"
      unfolding doc2 marked_keeps using rest by blast
    then have "highlight_loop other env pos xs (s\<lparr>doc := ?d2\<rparr>) = Inr (s\<lparr>doc := ?d2\<rparr>)"
      by (rule highlight_loop_outside)
    with step show ?thesis
      by (simp only:)
  next
    case False
    then have out: "\<not> in_section pos (doc s ! x)"
      using Cons.prems(4) by simp
    have "sec \<in> set xs"
      using Cons.prems(2) False by simp
    then have "highlight_loop other env pos xs s = Inr (s\<lparr>doc := ?d2\<rparr>)"
      using dist(1) plain_xs only_xs by (intro Cons.IH)
    moreover have "highlight_loop other env pos (x # xs) s = highlight_loop other env pos xs s"
      using plain_x out by (simp add: qs_link_plain)
    ultimately show ?thesis
      by (simp only:)
  qed
qed

lemma distinct_qsa [simp]: "distinct (qsa d sel)"
  by (simp add: qsa_def)

lemma qsa_lt: "i \<in> set (qsa d sel) \<Longrightarrow> i < length d"
  by (simp add: qsa_def)

lemma link_is_navLink:
  assumes "qs d (sel_link v) = Some l"
  shows "l \<in> set (qsa d sel_navLinks)"
proof -
  from assms have "l \<in> set (qsa d (sel_link v))"
    by (auto simp: qs_def split: list.splits)
  then show ?thesis
    by (simp add: in_qsa matches_def sel_link_def sel_navLinks_def matches_compound_def)
qed

text \<open>With plain section ids the listener returns normally, at every scroll position.\<close>

lemma highlight_loop_returns:
  assumes "\<forall>x \<in> set xs. css_plain (section_id (doc s ! x))"
  shows "\<exists>s'. highlight_loop other env pos xs s = Inr s'"
  using assms
proof (induction xs arbitrary: s)
  case Nil
  show ?case by simp
next
  case (Cons x xs)
  let ?d2 = "case qs (doc s) (sel_link (0x0023 # section_id (doc s ! x))) of
               None \<Rightarrow> clear_active (navLinks env) (doc s)
             | Some l \<Rightarrow> upd l (class_add (lit ''active'')) (clear_active (navLinks env) (doc s))"
  have plain_x: "css_plain (section_id (doc s ! x))"
    using Cons.prems by simp
  have plain_xs: "\<forall>y \<in> set xs. css_plain (section_id (doc s ! y))"
    using Cons.prems by simp
  show ?case
  proof (cases "in_section pos (doc s ! x)")
    case True
    have doc2: "doc (s\<lparr>doc := ?d2\<rparr>) = ?d2"
      by simp
    have "\<forall>y \<in> set xs. css_plain (section_id (doc (s\<lparr>doc := ?d2\<rparr>) ! y))"
      unfolding doc2 marked_keeps using plain_xs .
    then have "\<exists>s'. highlight_loop other env pos xs (s\<lparr>doc := ?d2\<rparr>) = Inr s'"
      by (rule Cons.IH)
    moreover have "highlight_loop other env pos (x # xs) s
                     = highlight_loop other env pos xs (s\<lparr>doc := ?d2\<rparr>)"
      using plain_x True by (simp add: qs_link_plain Let_def)
    ultimately show ?thesis
      by (simp only:)
  next
    case False
    have "\<exists>s'. highlight_loop other env pos xs s = Inr s'"
      using plain_xs by (rule Cons.IH)
    moreover have "highlight_loop other env pos (x # xs) s = highlight_loop other env pos xs s"
      using plain_x False by (simp add: qs_link_plain)
    ultimately show ?thesis
      by (simp only:)
  qed
qed

lemma onScrollHighlight_returns:
  assumes "\<forall>x \<in> set (sections env). css_plain (section_id (doc s ! x))"
  shows "\<exists>s'. onScrollHighlight other env s = Inr s'"
  unfolding onScrollHighlight_def using assms by (rule highlight_loop_returns)

text \<open>
  What the listener does on a page whose section ids are plain. Let the two arrays of the
  script list the sections and the nav links of the document, and let the offset
  \<^verbatim>\<open>scrollY + 120\<close> lie in the range of exactly one section. Then the listener returns
  normally, and afterwards a nav link has the class \<^verbatim>\<open>active\<close> if and only if it is the
  link that \<^verbatim>\<open>querySelector\<close> finds for that section: the first nav link in document
  order whose \<^verbatim>\<open>href\<close> is \<^verbatim>\<open>#\<close> followed by the id of the section.
\<close>

lemma onScrollHighlight_marks_link:
  assumes "sections env = qsa (doc s) sel_sections"
    and "navLinks env = qsa (doc s) sel_navLinks"
    and "\<forall>x \<in> set (sections env). css_plain (section_id (doc s ! x))"
    and "sec \<in> set (sections env)"
    and "in_section (scrollY s + 120) (doc s ! sec)"
    and "\<forall>x \<in> set (sections env). in_section (scrollY s + 120) (doc s ! x) \<longrightarrow> x = sec"
  shows "\<exists>s'. onScrollHighlight other env s = Inr s' \<and>
           (\<forall>l \<in> set (navLinks env).
              class_contains (lit ''active'') (doc s' ! l) \<longleftrightarrow>
                qs (doc s) (sel_link (0x0023 # section_id (doc s ! sec))) = Some l) \<and>
           (\<forall>l. qs (doc s) (sel_link (0x0023 # section_id (doc s ! sec))) = Some l \<longrightarrow>
                l \<in> set (navLinks env))"
proof -
  let ?link = "qs (doc s) (sel_link (0x0023 # section_id (doc s ! sec)))"
  let ?d1 = "clear_active (navLinks env) (doc s)"
  let ?d2 = "case ?link of None \<Rightarrow> ?d1 | Some l \<Rightarrow> upd l (class_add (lit ''active'')) ?d1"
  have d: "distinct (sections env)"
    using assms(1) by simp
  have run: "onScrollHighlight other env s = Inr (s\<lparr>doc := ?d2\<rparr>)"
    unfolding onScrollHighlight_def
    using d assms(4,3,5,6) by (rule highlight_loop_inside)
  have act: "class_contains (lit ''active'') (?d2 ! l) \<longleftrightarrow> ?link = Some l"
    if "l \<in> set (navLinks env)" for l
  proof -
    have l: "l < length (doc s)"
      using that assms(2) by (simp add: qsa_lt)
    show ?thesis
    proof (cases ?link)
      case None
      then show ?thesis
        using that l by (simp add: clear_active_class)
    next
      case (Some k)
      then have "k < length (doc s)"
        by (rule qs_Some_lt)
      then show ?thesis
        using Some that l by (auto simp: nth_upd clear_active_class)
    qed
  qed
  have "l \<in> set (navLinks env)" if "?link = Some l" for l
    using that assms(2) link_is_navLink by simp
  with run act show ?thesis
    by simp
qed


lemmas eval_nav = page_nav_def nav_elements_def section_at_def page_quote_def quote_id_def

lemma page_nav_consts:
  "sections (script_consts (doc page_nav)) = [8, 9]"
  "navLinks (script_consts (doc page_nav)) = [5, 7]"
  by (simp_all add: eval_nav eval_sel sel_sections_def sel_navLinks_def)

lemma page_nav_sections:
  "section_id (doc page_nav ! 8) = lit ''about''"
  "section_id (doc page_nav ! 9) = lit ''contact''"
  "\<not> in_section (scrollY page_nav + 120) (doc page_nav ! 8)"
  "in_section (scrollY page_nav + 120) (doc page_nav ! 9)"
  by (simp_all add: eval_nav page_def el_def section_id_def getAttribute_def in_section_def)

lemma hash_lit: "0x0023 # lit v = lit (CHR ''#'' # v)"
  by (simp add: lit_def)

lemma page_nav_link:
  "qs (doc page_nav) (sel_link (0x0023 # lit ''contact'')) = Some 7"
  by (simp add: eval_nav eval_sel sel_link_def hash_lit)

lemma plain_ids: "css_plain (lit ''about'')" "css_plain (lit ''contact'')"
  by (simp_all add: css_plain_def lit_def)

lemma onScrollHighlight_page_nav:
  "\<exists>s'. onScrollHighlight other (script_consts (doc page_nav)) page_nav = Inr s' \<and>
        class_contains (lit ''active'') (doc s' ! 7) \<and>
        \<not> class_contains (lit ''active'') (doc s' ! 5)"
proof -
  let ?e = "script_consts (doc page_nav)"
  have h1: "sections ?e = qsa (doc page_nav) sel_sections"
    and h2: "navLinks ?e = qsa (doc page_nav) sel_navLinks"
    by (simp_all add: script_consts_def)
  have h3: "\<forall>x \<in> set (sections ?e). css_plain (section_id (doc page_nav ! x))"
    by (simp add: page_nav_consts page_nav_sections plain_ids)
  have h4: "9 \<in> set (sections ?e)"
    by (simp add: page_nav_consts)
  have h6: "\<forall>x \<in> set (sections ?e).
              in_section (scrollY page_nav + 120) (doc page_nav ! x) \<longrightarrow> x = 9"
    by (simp add: page_nav_consts page_nav_sections)
  from onScrollHighlight_marks_link [OF h1 h2 h3 h4 page_nav_sections(4) h6, of other]
  obtain s' where r: "onScrollHighlight other ?e page_nav = Inr s'"
    and a: "\<forall>l \<in> set (navLinks ?e).
              class_contains (lit ''active'') (doc s' ! l) \<longleftrightarrow>
                qs (doc page_nav) (sel_link (0x0023 # section_id (doc page_nav ! 9))) = Some l"
    by blast
  from a have "class_contains (lit ''active'') (doc s' ! 7)"
    "\<not> class_contains (lit ''active'') (doc s' ! 5)"
    by (simp_all add: page_nav_consts page_nav_sections page_nav_link)
  with r show ?thesis
    by blast
qed

text \<open>
  C8. A page whose only section has the id \<^verbatim>\<open>a"b\<close> and whose nav link targets it. The
  offset lies in that section, yet the listener marks no link: the quote in the id ends
  the string of the selector early, and \<^verbatim>\<open>querySelector\<close> throws a SyntaxError.
\<close>

theorem onScrollHighlight_quote_id:
  "sections (script_consts (doc page_quote)) = [6] \<and>
   navLinks (script_consts (doc page_quote)) = [5] \<and>
   in_section (scrollY page_quote + 120) (doc page_quote ! 6) \<and>
   getAttribute (doc page_quote ! 5) (lit ''href'') = Some (0x0023 # section_id (doc page_quote ! 6)) \<and>
   onScrollHighlight other (script_consts (doc page_quote)) page_quote = Inl SyntaxError"
proof -
  have c: "sections (script_consts (doc page_quote)) = [6]"
    "navLinks (script_consts (doc page_quote)) = [5]"
    by (simp_all add: eval_nav eval_sel sel_sections_def sel_navLinks_def)
  have i: "in_section (scrollY page_quote + 120) (doc page_quote ! 6)"
    "section_id (doc page_quote ! 6) = quote_id"
    "getAttribute (doc page_quote ! 5) (lit ''href'') = Some (0x0023 # quote_id)"
    by (simp_all add: page_quote_def page_def el_def section_id_def getAttribute_def in_section_def)
  have "qs_link other d quote_id = Inl SyntaxError" for d
    by (simp add: qs_link_def readable_def quote_id_def lit_def high_surrogate_def
        breaks_selector_def)
  then have "onScrollHighlight other (script_consts (doc page_quote)) page_quote = Inl SyntaxError"
    by (simp add: onScrollHighlight_def c i)
  with c i show ?thesis
    by simp
qed


end
